theory Spec2Isabelle
  imports Main "HOL-Library.Finite_Map"
begin

section \<open>Tree values and subscription\<close>

text \<open>
  The values \<^verbatim>\<open>jpath\<close> walks are what \<^verbatim>\<open>json.loads\<close> builds: \<^verbatim>\<open>None\<close>, integers,
  strings, lists and dicts. A dict is a finite map, so that equality of two values is
  Python's \<^verbatim>\<open>==\<close> (the order in which a dict was filled does not count). Keys are the
  two kinds a path can produce, \<^verbatim>\<open>str\<close> and \<^verbatim>\<open>int\<close>.
  Python's \<^verbatim>\<open>bool\<close> is a subclass of \<^verbatim>\<open>int\<close> with \<^verbatim>\<open>True == 1\<close> and
  \<^verbatim>\<open>False == 0\<close>; \<^verbatim>\<open>jpath\<close> touches a value only through \<^verbatim>\<open>==\<close>,
  \<^verbatim>\<open>isinstance(_, (list, dict))\<close> and subscription, none of which separates
  \<^verbatim>\<open>True\<close> from \<^verbatim>\<open>1\<close>, so the booleans are the integers 1 and 0 here. Floats are
  outside the model. Text is ASCII: a character is one \<^typ>\<open>char\<close>.
\<close>

datatype key = KStr string | KInt int

datatype jv = JNull | JInt int | JStr string | JArr "jv list" | JObj "(key, jv) fmap"

text \<open>The exceptions the code raises, catches or lets through.\<close>

datatype exn = IndexError | KeyError | TypeError | ValueError

text \<open>
  Indexing a sequence with a Python integer: \<^verbatim>\<open>-1\<close> is the last position, and a
  position outside the sequence has no value (the caller raises \<^verbatim>\<open>IndexError\<close>).
\<close>

definition seq_index :: "'a list \<Rightarrow> int \<Rightarrow> 'a option" where
  "seq_index xs i =
     (if 0 \<le> i \<and> i < int (length xs) then Some (xs ! nat i)
      else if i < 0 \<and> - int (length xs) \<le> i then Some (xs ! nat (int (length xs) + i))
      else None)"

text \<open>
  \<^verbatim>\<open>obj[k]\<close>. A dict raises \<^verbatim>\<open>KeyError\<close> on a key it does not hold; a list takes
  integers only (\<^verbatim>\<open>TypeError\<close> on a string) and raises \<^verbatim>\<open>IndexError\<close> out of range;
  a string behaves like a list and yields a one-character string; \<^verbatim>\<open>None\<close> and
  integers are not subscriptable.
\<close>

fun py_getitem :: "jv \<Rightarrow> key \<Rightarrow> exn + jv" where
  "py_getitem (JObj m) k = (case fmlookup m k of None \<Rightarrow> Inl KeyError | Some v \<Rightarrow> Inr v)"
| "py_getitem (JArr xs) (KInt i) =
     (case seq_index xs i of None \<Rightarrow> Inl IndexError | Some v \<Rightarrow> Inr v)"
| "py_getitem (JArr xs) (KStr s) = Inl TypeError"
| "py_getitem (JStr s) (KInt i) =
     (case seq_index s i of None \<Rightarrow> Inl IndexError | Some c \<Rightarrow> Inr (JStr [c]))"
| "py_getitem (JStr s) (KStr t) = Inl TypeError"
| "py_getitem JNull k = Inl TypeError"
| "py_getitem (JInt n) k = Inl TypeError"

text \<open>\<^verbatim>\<open>isinstance(obj, (list, dict))\<close>.\<close>

fun is_container :: "jv \<Rightarrow> bool" where
  "is_container (JArr xs) = True"
| "is_container (JObj m) = True"
| "is_container v = False"

section \<open>Library operations on strings\<close>

abbreviation (input) dquote :: char where
  "dquote \<equiv> CHR 0x22"

abbreviation (input) squote :: char where
  "squote \<equiv> CHR 0x27"

text \<open>The character classes \<^verbatim>\<open>\d\<close>, \<^verbatim>\<open>\w\<close> and \<^verbatim>\<open>\s\<close> of \<^verbatim>\<open>re\<close>, on ASCII.\<close>

definition is_digit :: "char \<Rightarrow> bool" where
  "is_digit c = (c \<in> set ''0123456789'')"

definition is_word :: "char \<Rightarrow> bool" where
  "is_word c =
     (c \<in> set ''abcdefghijklmnopqrstuvwxyzABCDEFGHIJKLMNOPQRSTUVWXYZ0123456789_'')"

definition is_space :: "char \<Rightarrow> bool" where
  "is_space c =
     (c \<in> set [CHR 0x09, CHR 0x0A, CHR 0x0B, CHR 0x0C, CHR 0x0D,
                CHR 0x1C, CHR 0x1D, CHR 0x1E, CHR 0x1F, CHR 0x20])"

text \<open>
  \<^verbatim>\<open>int(s)\<close> in base 10: blanks around the number are dropped (tab, line feed,
  vertical tab, form feed, carriage return, space), one sign may lead, and the digits
  may be grouped by single underscores. \<open>None\<close> is the \<^verbatim>\<open>ValueError\<close>. (CPython's
  limit on the number of digits of a string, 4300 by default, is not modelled.)
\<close>

definition int_blank :: "char \<Rightarrow> bool" where
  "int_blank c = (c \<in> set [CHR 0x09, CHR 0x0A, CHR 0x0B, CHR 0x0C, CHR 0x0D, CHR 0x20])"

fun digits_ok :: "string \<Rightarrow> bool" where
  "digits_ok [] = False"
| "digits_ok [c] = is_digit c"
| "digits_ok (c # d # r) =
     (is_digit c \<and> (if d = CHR ''_'' then digits_ok r else digits_ok (d # r)))"

definition digit_val :: "char \<Rightarrow> nat" where
  "digit_val c = of_char c - 48"

definition digits_val :: "string \<Rightarrow> nat" where
  "digits_val ds = foldl (\<lambda>a c. 10 * a + digit_val c) 0 ds"

definition py_int :: "string \<Rightarrow> int option" where
  "py_int s =
     (let t = rev (dropWhile int_blank (rev (dropWhile int_blank s)));
          neg = (take 1 t = ''-'');
          body = (if take 1 t = ''-'' \<or> take 1 t = ''+'' then drop 1 t else t)
      in if digits_ok body
         then Some ((if neg then - 1 else 1) * int (digits_val (filter is_digit body)))
         else None)"

text \<open>
  \<^verbatim>\<open>path.split(sep)\<close> for a separator that is not empty: the text is cut at each
  occurrence of \<open>sep\<close>, found from the left without overlap, and empty pieces are kept.
  \<open>cur\<close> is the piece read so far. After a separator that starts at \<open>c\<close> the scan
  goes on \<open>length sep\<close> characters further, that is \<open>length sep - 1\<close> after \<open>c\<close>.
  (\<^verbatim>\<open>split\<close> raises \<^verbatim>\<open>ValueError\<close> on the empty separator: \<open>jpath\<close> below.)
\<close>

fun split_from :: "string \<Rightarrow> string \<Rightarrow> string \<Rightarrow> string list" where
  "split_from sep cur [] = [cur]"
| "split_from sep cur (c # cs) =
     (if take (length sep) (c # cs) = sep
      then cur # split_from sep [] (drop (length sep - 1) cs)
      else split_from sep (cur @ [c]) cs)"

definition py_split :: "string \<Rightarrow> string \<Rightarrow> string list" where
  "py_split sep path = split_from sep [] path"

section \<open>The three regular expressions\<close>

text \<open>
  \<^verbatim>\<open>subscript_re\<close> is
  \<^verbatim>\<open>((\[\d+\])+|((\[\"(\w+|\d+|\s*)+\"\])+|(\[\'(\w+|\d+|\s*)+\'\])+)+)+\<close>:
  one or more bracket groups in a row, a group being \<^verbatim>\<open>[digits]\<close>, or a run of word
  and blank characters (possibly none) between two double quotes or between two single
  quotes, in brackets. No group contains a bracket or a quote inside, so a match that
  starts at a position is the longest run of groups from there.
  Each function gives the length of the match at the start of the text, 0 for none.
\<close>

definition key_char :: "char \<Rightarrow> bool" where
  "key_char c = (is_word c \<or> is_space c)"

definition digit_group :: "string \<Rightarrow> nat" where
  "digit_group s =
     (case s of
        [] \<Rightarrow> 0
      | c # r \<Rightarrow>
          if c = CHR ''['' \<and> takeWhile is_digit r \<noteq> [] \<and> take 1 (dropWhile is_digit r) = '']''
          then length (takeWhile is_digit r) + 2 else 0)"

definition quoted_group :: "char \<Rightarrow> string \<Rightarrow> nat" where
  "quoted_group q s =
     (case s of
        c # c' # r \<Rightarrow>
          if c = CHR ''['' \<and> c' = q \<and> take 2 (dropWhile key_char r) = [q, CHR '']'']
          then length (takeWhile key_char r) + 4 else 0
      | _ \<Rightarrow> 0)"

definition group_len :: "string \<Rightarrow> nat" where
  "group_len s =
     (if 0 < digit_group s then digit_group s
      else if 0 < quoted_group dquote s then quoted_group dquote s
      else quoted_group squote s)"

text \<open>
  The run of groups at the start of the text. After a group of \<open>n\<close> characters that
  starts at \<open>c\<close>, the rest is \<open>drop n (c # cs)\<close>, which is \<open>drop (n - 1) cs\<close>.
\<close>

fun run_len :: "string \<Rightarrow> nat" where
  "run_len [] = 0"
| "run_len (c # cs) =
     (if group_len (c # cs) = 0 then 0
      else group_len (c # cs) + run_len (drop (group_len (c # cs) - 1) cs))"

text \<open>
  \<^verbatim>\<open>subscript_re.search(elem)\<close>, then \<^verbatim>\<open>.group()\<close>: the match at the leftmost position
  that has one, \<open>None\<close> where the text has no bracket group.
\<close>

fun subscript_search :: "string \<Rightarrow> string option" where
  "subscript_search [] = None"
| "subscript_search (c # cs) =
     (if 0 < run_len (c # cs) then Some (take (run_len (c # cs)) (c # cs))
      else subscript_search cs)"

text \<open>\<^verbatim>\<open>subscript_re.sub("", elem)\<close>: every match is taken out, from left to right.\<close>

fun subscript_sub :: "string \<Rightarrow> string" where
  "subscript_sub [] = []"
| "subscript_sub (c # cs) =
     (if 0 < run_len (c # cs) then subscript_sub (drop (run_len (c # cs) - 1) cs)
      else c # subscript_sub cs)"

text \<open>
  \<^verbatim>\<open>brackets_re.split(s)\<close> with \<^verbatim>\<open>brackets_re = [\[\]]\<close>: the text is cut at every
  bracket and empty pieces are kept; the code's comprehension then drops them.
\<close>

fun brackets_from :: "string \<Rightarrow> string \<Rightarrow> string list" where
  "brackets_from cur [] = [cur]"
| "brackets_from cur (c # cs) =
     (if c = CHR ''['' \<or> c = CHR '']'' then cur # brackets_from [] cs
      else brackets_from (cur @ [c]) cs)"

definition brackets_split :: "string \<Rightarrow> string list" where
  "brackets_split s = brackets_from [] s"

text \<open>
  \<^verbatim>\<open>apex_re.sub("", s)\<close> with \<^verbatim>\<open>apex_re = (^\'|\'$)+|(^\"|\"$)+\<close>: a quote character
  at the very start is taken out, and so is a quote character at the very end
  (\<^verbatim>\<open>$\<close> also matches just before a line feed that ends the text).
\<close>

definition is_quote :: "char \<Rightarrow> bool" where
  "is_quote c = (c = squote \<or> c = dquote)"

definition strip_leading_quote :: "string \<Rightarrow> string" where
  "strip_leading_quote s = (case s of [] \<Rightarrow> [] | c # r \<Rightarrow> if is_quote c then r else s)"

definition strip_trailing_quote :: "string \<Rightarrow> string" where
  "strip_trailing_quote s =
     (case rev s of
        [] \<Rightarrow> []
      | c # r \<Rightarrow>
          if is_quote c then rev r
          else (case r of
                  [] \<Rightarrow> s
                | d # r' \<Rightarrow> if c = CHR 0x0A \<and> is_quote d then rev r' @ [c] else s))"

definition apex_sub :: "string \<Rightarrow> string" where
  "apex_sub s = strip_trailing_quote (strip_leading_quote s)"

section \<open>The evaluator\<close>

text \<open>
  The key types a caller lists in \<^verbatim>\<open>keytypes\<close>: the callables \<^verbatim>\<open>str\<close> and \<^verbatim>\<open>int\<close>.
  \<open>conv k elem\<close> is the call \<^verbatim>\<open>k(elem)\<close>: \<^verbatim>\<open>str\<close> returns the text, \<^verbatim>\<open>int\<close> parses it
  or raises \<^verbatim>\<open>ValueError\<close>.
\<close>

datatype keytype = KTStr | KTInt

definition conv :: "keytype \<Rightarrow> string \<Rightarrow> exn + key" where
  "conv k elem =
     (case k of
        KTStr \<Rightarrow> Inr (KStr elem)
      | KTInt \<Rightarrow> (case py_int elem of None \<Rightarrow> Inl ValueError | Some n \<Rightarrow> Inr (KInt n)))"

text \<open>The defaults of the signature: \<^verbatim>\<open>nil = {"result" : "error"}\<close>, \<^verbatim>\<open>[str, int]\<close>, \<^verbatim>\<open>'->'\<close>.\<close>

definition nil :: jv where
  "nil = JObj (fmap_of_list [(KStr ''result'', JStr ''error'')])"

definition default_keytypes :: "keytype list" where
  "default_keytypes = [KTStr, KTInt]"

definition default_sep :: string where
  "default_sep = ''->''"

text \<open>
  One turn of \<^verbatim>\<open>for k in keytypes\<close> (lines 237 to 248): the element, converted by
  \<open>k\<close>, subscripts the cursor, or the source while the cursor equals the sentinel.
  \<^verbatim>\<open>IndexError\<close> and \<^verbatim>\<open>KeyError\<close> set the cursor to the sentinel; any other exception
  (the \<^verbatim>\<open>ValueError\<close> of \<^verbatim>\<open>int\<close>, the \<^verbatim>\<open>TypeError\<close> of a list given a string) is
  passed over and leaves the cursor as it was. The loop has no \<^verbatim>\<open>break\<close>: the next
  key type is tried on the cursor this one left.
\<close>

definition try_keytype :: "jv \<Rightarrow> jv \<Rightarrow> string \<Rightarrow> jv \<Rightarrow> keytype \<Rightarrow> jv" where
  "try_keytype source null elem obj k =
     (case (case conv k elem of
              Inl e \<Rightarrow> Inl e
            | Inr key \<Rightarrow> if obj \<noteq> null then py_getitem obj key else py_getitem source key) of
        Inr v \<Rightarrow> v
      | Inl e \<Rightarrow> if e = IndexError \<or> e = KeyError then null else obj)"

text \<open>
  A subscript token (lines 208 to 212): \<^verbatim>\<open>int(subscript)\<close>, and where that raises, the
  text without its quotes.
\<close>

definition subscript_key :: "string \<Rightarrow> key" where
  "subscript_key subscript =
     (case py_int subscript of Some n \<Rightarrow> KInt n | None \<Rightarrow> KStr (apex_sub subscript))"

text \<open>
  \<^verbatim>\<open>for subscript in scs\<close> (lines 201 to 221). An exception leaves the loop and the
  element loop; it is returned with the cursor of that moment, which the handlers of
  \<open>jpath\<close> need.
\<close>

fun subscript_loop :: "jv \<Rightarrow> jv \<Rightarrow> jv \<Rightarrow> string list \<Rightarrow> (exn \<times> jv) + jv" where
  "subscript_loop source null obj [] = Inr obj"
| "subscript_loop source null obj (subscript # scs) =
     (if \<not> is_container obj then Inl (TypeError, obj)
      else (case (if obj \<noteq> null then py_getitem obj (subscript_key subscript)
                  else py_getitem source (subscript_key subscript)) of
              Inl e \<Rightarrow> Inl (e, obj)
            | Inr v \<Rightarrow> subscript_loop source null v scs))"

text \<open>
  The root of an element with subscripts (lines 178 to 192): with no name before the
  brackets the cursor stays, or becomes the source if it equals the sentinel; a name
  subscripts the cursor, or the source if the cursor equals the sentinel, as a string key.
\<close>

definition resolve_root :: "jv \<Rightarrow> jv \<Rightarrow> jv \<Rightarrow> string \<Rightarrow> (exn \<times> jv) + jv" where
  "resolve_root source null obj root =
     (if root = [] then (if obj = null then Inr source else Inr obj)
      else (case (if obj = null then py_getitem source (KStr root)
                  else py_getitem obj (KStr root)) of
              Inl e \<Rightarrow> Inl (e, obj)
            | Inr v \<Rightarrow> Inr v))"

text \<open>Line 199: \<^verbatim>\<open>scs = [ i for i in brackets_re.split(subscripts.group()) if i ]\<close>.\<close>

definition elem_subscripts :: "string \<Rightarrow> string list" where
  "elem_subscripts grp = filter (\<lambda>i. i \<noteq> []) (brackets_split grp)"

text \<open>
  The two shapes of text that stand between the brackets of a group of \<^verbatim>\<open>subscript_re\<close>:
  digits, or word and blank characters between two quotes of the same kind.
\<close>

definition token_shape :: "string \<Rightarrow> bool" where
  "token_shape t =
     ((t \<noteq> [] \<and> list_all is_digit t) \<or>
      (2 \<le> length t \<and> is_quote (hd t) \<and> last t = hd t \<and> list_all key_char (butlast (tl t))))"

text \<open>
  The body of \<^verbatim>\<open>for elem in elems\<close> (lines 157 to 248): an empty element is skipped; an
  element in which \<^verbatim>\<open>subscript_re\<close> finds a match resolves its root and then the
  subscripts of the first match; any other element is a name, looked up through the key
  types after the check that the cursor is a list or a dict. An empty \<^verbatim>\<open>keytypes\<close> is
  replaced by \<^verbatim>\<open>[str, int]\<close> there.
\<close>

definition elem_step :: "jv \<Rightarrow> keytype list \<Rightarrow> jv \<Rightarrow> jv \<Rightarrow> string \<Rightarrow> (exn \<times> jv) + jv" where
  "elem_step source keytypes null obj elem =
     (if elem = [] then Inr obj
      else (case subscript_search elem of
              Some grp \<Rightarrow>
                (case resolve_root source null obj (subscript_sub elem) of
                   Inl x \<Rightarrow> Inl x
                 | Inr obj' \<Rightarrow>
                     subscript_loop source null obj' (elem_subscripts grp))
            | None \<Rightarrow>
                if \<not> is_container obj then Inl (TypeError, obj)
                else Inr (foldl (try_keytype source null elem) obj
                            (if keytypes = [] then [KTStr, KTInt] else keytypes))))"

fun elems_loop :: "jv \<Rightarrow> keytype list \<Rightarrow> jv \<Rightarrow> jv \<Rightarrow> string list \<Rightarrow> (exn \<times> jv) + jv" where
  "elems_loop source keytypes null obj [] = Inr obj"
| "elems_loop source keytypes null obj (elem # elems) =
     (case elem_step source keytypes null obj elem of
        Inl x \<Rightarrow> Inl x
      | Inr obj' \<Rightarrow> elems_loop source keytypes null obj' elems)"

text \<open>
  \<^verbatim>\<open>jpath(source, path, keytypes, null, sep)\<close>. \<open>Inl\<close> is an exception that leaves the
  call. The empty path returns the source at once. \<^verbatim>\<open>path.split(sep)\<close> stands before
  the \<^verbatim>\<open>try\<close>, so its \<^verbatim>\<open>ValueError\<close> on an empty separator is not caught. Of what the
  loop raises, \<^verbatim>\<open>IndexError\<close>, \<^verbatim>\<open>KeyError\<close> and \<^verbatim>\<open>TypeError\<close> give the sentinel, and
  the last handler (\<^verbatim>\<open>except BaseException: pass\<close>) returns the cursor as it stands.
\<close>

definition jpath :: "jv \<Rightarrow> string \<Rightarrow> keytype list \<Rightarrow> jv \<Rightarrow> string \<Rightarrow> exn + jv" where
  "jpath source path keytypes null sep =
     (if path = [] then Inr source
      else if sep = [] then Inl ValueError
      else (case elems_loop source keytypes null null (py_split sep path) of
              Inr obj \<Rightarrow> Inr obj
            | Inl (e, obj) \<Rightarrow>
                if e = IndexError \<or> e = KeyError \<or> e = TypeError then Inr null else Inr obj))"

text \<open>
  \<^verbatim>\<open>jxpath(source, path, keytypes, null)\<close> is line 267,
  \<^verbatim>\<open>return jpath(source, path, keytypes=keytypes, null=nil, sep='/')\<close>: the module's
  \<^verbatim>\<open>nil\<close> is passed on, not the caller's \<^verbatim>\<open>null\<close>.
\<close>

definition jxpath :: "jv \<Rightarrow> string \<Rightarrow> keytype list \<Rightarrow> jv \<Rightarrow> exn + jv" where
  "jxpath source path keytypes null = jpath source path keytypes nil ''/''"

section \<open>The trees of the examples\<close>

text \<open>A dict with string keys, written as the list of its items.\<close>

definition dict :: "(string \<times> jv) list \<Rightarrow> jv" where
  "dict kvs = JObj (fmap_of_list (map (\<lambda>(k, v). (KStr k, v)) kvs))"

text \<open>The tree \<^verbatim>\<open>d\<close> and the array \<^verbatim>\<open>a\<close> of the module (lines 40 to 81).\<close>

definition d :: jv where
  "d = dict [(''test'', dict [
         (''path'', JArr [dict [
            (''to'', JArr [dict [(''object5'', JInt 1)], JArr [JInt 0, JInt 1, JInt 2]]),
            (''in'', JArr [dict [(''arrays'', JArr [dict [
               (''test'', JInt 7), ([dquote, dquote], JInt 42)]])]])]]),
         (''inner'', JNull)])]"

definition a :: jv where
  "a = JArr [JArr [JArr [JInt 0, JInt 0, JInt 0], JArr [JInt 1, JInt 2, JInt 3],
                   JArr [JInt 0, JInt 0, JInt 0]],
             JArr [JArr [JInt 1, JInt 0, JInt 0], JArr [JInt 0, JInt 1, JInt 0],
                   JArr [JInt 0, JInt 0, JInt 1]]]"

text \<open>The tree \<^verbatim>\<open>d\<close> of the specification's scenarios.\<close>

definition d_spec_test :: jv where
  "d_spec_test = dict [
         (''path'', JArr [dict [
            (''to'', JArr [dict [(''object'', JInt 1)], JArr [JInt 0, JInt 1, JInt 2]])]]),
         (''inner'', JNull)]"

definition d_spec :: jv where
  "d_spec = dict [(''test'', d_spec_test)]"



text \<open>
  \<^verbatim>\<open>sep.join(elems)\<close>, the path that is written with the separator \<open>sep\<close> from a list
  of elements, and \<^verbatim>\<open>sep in elem\<close>. Neither is in the module; paths are stated with them.
\<close>

fun py_join :: "string \<Rightarrow> string list \<Rightarrow> string" where
  "py_join sep [] = []"
| "py_join sep [e] = e"
| "py_join sep (e # e' # es) = e @ sep @ py_join sep (e' # es)"

fun occurs :: "string \<Rightarrow> string \<Rightarrow> bool" where
  "occurs sep [] = (sep = [])"
| "occurs sep (c # cs) = (take (length sep) (c # cs) = sep \<or> occurs sep cs)"

section \<open>The empty path\<close>

text \<open>
  C4. The empty path returns the tree itself, whatever the tree, the key types, the
  sentinel and the separator are (lines 134 to 136 come before the split and the loop).
\<close>

theorem empty_path_returns_tree:
  "jpath tree [] keytypes null sep = Inr tree"
  by (simp add: jpath_def)

section \<open>The element loop\<close>

text \<open>The element loop over two lists of elements, one after the other.\<close>

lemma elems_loop_append:
  "elems_loop source keytypes null obj (es1 @ es2) =
     (case elems_loop source keytypes null obj es1 of
        Inl x \<Rightarrow> Inl x
      | Inr c \<Rightarrow> elems_loop source keytypes null c es2)"
  by (induction es1 arbitrary: obj) (auto split: sum.splits)

section \<open>What leaves the call\<close>

text \<open>
  Subscription raises \<^verbatim>\<open>IndexError\<close>, \<^verbatim>\<open>KeyError\<close> or \<^verbatim>\<open>TypeError\<close> and nothing
  else, and so does each loop over it: the \<^verbatim>\<open>ValueError\<close> of \<^verbatim>\<open>int\<close> is caught where
  it is raised.
\<close>

lemma py_getitem_raises:
  "py_getitem v k = Inl e \<Longrightarrow> e = IndexError \<or> e = KeyError \<or> e = TypeError"
  by (cases v; cases k) (auto split: option.splits)

lemma subscript_loop_raises:
  "subscript_loop source null obj scs = Inl (e, c) \<Longrightarrow>
     e = IndexError \<or> e = KeyError \<or> e = TypeError"
proof (induction scs arbitrary: obj)
  case Nil
  then show ?case by simp
next
  case (Cons s scs)
  then show ?case
    by (auto split: if_splits sum.splits dest: py_getitem_raises)
qed

lemma resolve_root_raises:
  "resolve_root source null obj root = Inl (e, c) \<Longrightarrow>
     e = IndexError \<or> e = KeyError \<or> e = TypeError"
  by (auto simp: resolve_root_def split: if_splits sum.splits dest: py_getitem_raises)

lemma elem_step_raises:
  "elem_step source keytypes null obj elem = Inl (e, c) \<Longrightarrow>
     e = IndexError \<or> e = KeyError \<or> e = TypeError"
  unfolding elem_step_def
  by (auto split: if_splits option.splits sum.splits
      dest: resolve_root_raises subscript_loop_raises)

lemma elems_loop_raises:
  "elems_loop source keytypes null obj elems = Inl (e, c) \<Longrightarrow>
     e = IndexError \<or> e = KeyError \<or> e = TypeError"
proof (induction elems arbitrary: obj)
  case Nil
  then show ?case by simp
next
  case (Cons elem elems)
  then show ?case
    by (auto split: sum.splits dest: elem_step_raises)
qed

text \<open>
  C6 as stated fails twice over. The empty separator makes \<^verbatim>\<open>path.split(sep)\<close> raise
  \<^verbatim>\<open>ValueError\<close> on line 142, before the \<^verbatim>\<open>try\<close> of line 150, so
  \<^verbatim>\<open>jpath({}, "a", sep="")\<close> does not return. And not every failure becomes the
  sentinel: on \<^verbatim>\<open>{"a": 1}\<close> the path \<^verbatim>\<open>x->a\<close> raises \<^verbatim>\<open>KeyError\<close> for \<^verbatim>\<open>x\<close>, which is
  caught inside the key type loop, and the call returns \<^verbatim>\<open>1\<close>.
\<close>

theorem not_every_failure_contained:
  "\<not> (\<exists>v. jpath (dict []) ''a'' default_keytypes nil [] = Inr v) \<and>
   py_getitem (dict [(''a'', JInt 1)]) (KStr ''x'') = Inl KeyError \<and>
   jpath (dict [(''a'', JInt 1)]) ''x->a'' default_keytypes nil default_sep = Inr (JInt 1) \<and>
   JInt 1 \<noteq> nil"
proof -
  have "\<not> (\<exists>v. jpath (dict []) ''a'' default_keytypes nil [] = Inr v)"
    by (simp add: jpath_def)
  moreover have "py_getitem (dict [(''a'', JInt 1)]) (KStr ''x'') = Inl KeyError"
    by code_simp
  moreover have "jpath (dict [(''a'', JInt 1)]) ''x->a'' default_keytypes nil default_sep
     = Inr (JInt 1)"
    by code_simp
  moreover have "JInt 1 \<noteq> nil"
    by (simp add: nil_def)
  ultimately show ?thesis by (intro conjI)
qed

text \<open>
  C6, amended: for every source tree, path, key type list and sentinel, and every
  separator that is not empty, \<open>jpath\<close> returns a value and no exception leaves the
  call; and whenever an exception leaves the loop over the elements, as the
  \<^verbatim>\<open>IndexError\<close> of a subscript out of range does, the value returned is the sentinel.
  Nothing is said here of an exception that is caught inside the key type loop.
\<close>

theorem jpath_returns_normally:
  assumes "sep \<noteq> []"
  shows "(\<exists>v. jpath source path keytypes null sep = Inr v) \<and>
         (\<forall>e c. path \<noteq> [] \<and>
                 elems_loop source keytypes null null (py_split sep path) = Inl (e, c) \<longrightarrow>
                 jpath source path keytypes null sep = Inr null)"
proof
  show "\<exists>v. jpath source path keytypes null sep = Inr v"
    using assms by (auto simp: jpath_def split: sum.splits)
next
  show "\<forall>e c. path \<noteq> [] \<and>
               elems_loop source keytypes null null (py_split sep path) = Inl (e, c) \<longrightarrow>
               jpath source path keytypes null sep = Inr null"
  proof (intro allI impI)
    fix e c
    assume h: "path \<noteq> [] \<and>
               elems_loop source keytypes null null (py_split sep path) = Inl (e, c)"
    then have "e = IndexError \<or> e = KeyError \<or> e = TypeError"
      using elems_loop_raises by blast
    with h assms show "jpath source path keytypes null sep = Inr null"
      by (auto simp: jpath_def)
  qed
qed

theorem jpath_returns_normally_witness:
  "''->'' \<noteq> [] \<and>
   (\<exists>v. jpath (dict [(''a'', JArr [JInt 1])]) ''a[9]'' default_keytypes nil ''->'' = Inr v) \<and>
   elems_loop (dict [(''a'', JArr [JInt 1])]) default_keytypes nil nil
     (py_split ''->'' ''a[9]'') = Inl (IndexError, JArr [JInt 1]) \<and>
   jpath (dict [(''a'', JArr [JInt 1])]) ''a[9]'' default_keytypes nil ''->'' = Inr nil"
proof -
  have ne: "''->'' \<noteq> []" by simp
  have ne': "''a[9]'' \<noteq> []" by simp
  have raised: "elems_loop (dict [(''a'', JArr [JInt 1])]) default_keytypes nil nil
     (py_split ''->'' ''a[9]'') = Inl (IndexError, JArr [JInt 1])"
    by code_simp
  from jpath_returns_normally [OF ne, of "dict [(''a'', JArr [JInt 1])]" "''a[9]''"
      default_keytypes nil] ne ne' raised
  show ?thesis by blast
qed

section \<open>A failed name in the middle of a path\<close>

text \<open>
  C1 does not hold of the code. A name whose lookups all fail does not end the
  evaluation: the handlers inside the key type loop (lines 244 to 248) set the cursor
  to the sentinel or leave it as it is, and the element loop goes on. On
  \<^verbatim>\<open>{"a": 1}\<close> the path \<^verbatim>\<open>x->a\<close> misses the key \<^verbatim>\<open>x\<close> and still returns \<^verbatim>\<open>1\<close>, resolved
  from the root by the later element; on the array \<^verbatim>\<open>a\<close> the path \<^verbatim>\<open>0->x\<close> returns
  \<^verbatim>\<open>a[0]\<close>, the partial result, since a list given the string \<^verbatim>\<open>x\<close> raises
  \<^verbatim>\<open>TypeError\<close> and \<^verbatim>\<open>int("x")\<close> raises \<^verbatim>\<open>ValueError\<close>, both passed over.
\<close>

theorem failed_name_does_not_stop:
  "py_getitem (dict [(''a'', JInt 1)]) (KStr ''x'') = Inl KeyError \<and>
   jpath (dict [(''a'', JInt 1)]) ''x->a'' default_keytypes nil default_sep = Inr (JInt 1) \<and>
   jpath a ''0->x'' default_keytypes nil default_sep = py_getitem a (KInt 0) \<and>
   py_getitem a (KInt 0) \<noteq> Inr nil"
  by code_simp

section \<open>The key type loop\<close>

text \<open>
  C2 does not hold of the code. The loop over the key types has no \<^verbatim>\<open>break\<close>: after
  \<^verbatim>\<open>str\<close> has succeeded, \<^verbatim>\<open>int\<close> is applied to the value just found. On
  \<^verbatim>\<open>{"0": [7]}\<close> the path \<^verbatim>\<open>0\<close> first yields the list \<^verbatim>\<open>[7]\<close> and then its element
  \<^verbatim>\<open>7\<close>; on \<^verbatim>\<open>{"0": {"x": 1}}\<close> the second lookup raises \<^verbatim>\<open>KeyError\<close> and the result
  is the sentinel.
\<close>

theorem later_keytype_alters_result:
  "try_keytype (dict [(''0'', JArr [JInt 7])]) nil ''0'' nil KTStr = JArr [JInt 7] \<and>
   jpath (dict [(''0'', JArr [JInt 7])]) ''0'' default_keytypes nil default_sep = Inr (JInt 7) \<and>
   try_keytype (dict [(''0'', dict [(''x'', JInt 1)])]) nil ''0'' nil KTStr
     = dict [(''x'', JInt 1)] \<and>
   jpath (dict [(''0'', dict [(''x'', JInt 1)])]) ''0'' default_keytypes nil default_sep
     = Inr nil"
  by code_simp

section \<open>The XPath entry point\<close>

text \<open>
  C3 does not hold of the code. \<open>jxpath\<close> takes a \<^verbatim>\<open>null\<close> and passes the module's
  \<^verbatim>\<open>nil\<close> to \<open>jpath\<close> in its place (line 267 has \<^verbatim>\<open>null=nil\<close>). With the sentinel
  \<^verbatim>\<open>None\<close> and the path \<^verbatim>\<open>a\<close> on the empty dict, \<open>jxpath\<close> returns
  \<^verbatim>\<open>{"result": "error"}\<close>, and \<open>jpath\<close> with the separator \<^verbatim>\<open>/\<close> returns \<^verbatim>\<open>None\<close>.
\<close>

theorem jxpath_ignores_null:
  "jxpath (dict []) ''a'' default_keytypes JNull = Inr nil \<and>
   jpath (dict []) ''a'' default_keytypes JNull ''/'' = Inr JNull \<and>
   nil \<noteq> JNull"
  by code_simp

text \<open>
  Splitting a path that was joined from elements gives the elements back, when no
  element contains the separator. For \<^verbatim>\<open>->\<close> this needs a look at the seam: an element
  that ends in \<^verbatim>\<open>-\<close> is followed by the \<^verbatim>\<open>-\<close> of the separator, not by \<^verbatim>\<open>>\<close>.
\<close>

lemma split_slash_piece:
  "\<not> occurs ''/'' e \<Longrightarrow>
     split_from ''/'' cur (e @ ''/'' @ rest) = (cur @ e) # split_from ''/'' [] rest"
  by (induction e arbitrary: cur) auto

lemma split_slash_last:
  "\<not> occurs ''/'' e \<Longrightarrow> split_from ''/'' cur e = [cur @ e]"
  by (induction e arbitrary: cur) auto

lemma split_arrow_piece:
  "\<not> occurs ''->'' e \<Longrightarrow>
     split_from ''->'' cur (e @ ''->'' @ rest) = (cur @ e) # split_from ''->'' [] rest"
proof (induction e arbitrary: cur)
  case Nil
  then show ?case by simp
next
  case (Cons c e)
  then show ?case by (cases e) auto
qed

lemma split_arrow_last:
  "\<not> occurs ''->'' e \<Longrightarrow> split_from ''->'' cur e = [cur @ e]"
proof (induction e arbitrary: cur)
  case Nil
  then show ?case by simp
next
  case (Cons c e)
  then show ?case by (cases e) auto
qed

lemma split_join_slash:
  "es \<noteq> [] \<Longrightarrow> list_all (\<lambda>e. \<not> occurs ''/'' e) es \<Longrightarrow>
     py_split ''/'' (py_join ''/'' es) = es"
proof (induction "''/''" es rule: py_join.induct)
  case 1
  then show ?case by simp
next
  case (2 e)
  then show ?case by (simp add: py_split_def split_slash_last)
next
  case (3 e e' es)
  then show ?case
    using split_slash_piece [of e "[]" "py_join ''/'' (e' # es)"]
    by (simp add: py_split_def)
qed

lemma split_join_arrow:
  "es \<noteq> [] \<Longrightarrow> list_all (\<lambda>e. \<not> occurs ''->'' e) es \<Longrightarrow>
     py_split ''->'' (py_join ''->'' es) = es"
proof (induction "''->''" es rule: py_join.induct)
  case 1
  then show ?case by simp
next
  case (2 e)
  then show ?case by (simp add: py_split_def split_arrow_last)
next
  case (3 e e' es)
  then show ?case
    using split_arrow_piece [of e "[]" "py_join ''->'' (e' # es)"]
    by (simp add: py_split_def)
qed

lemma py_join_empty:
  "sep \<noteq> [] \<Longrightarrow> (py_join sep es = []) = (es = [] \<or> es = [[]])"
  by (induction sep es rule: py_join.induct) auto

text \<open>
  C8 as stated fails: its condition is on the keys of the tree, and what matters is the
  path. No key of \<^verbatim>\<open>{"x": {"a": {"b": 1}}}\<close> contains a separator; the path \<^verbatim>\<open>x->a/b\<close>
  has the two elements \<^verbatim>\<open>x\<close> and \<^verbatim>\<open>a/b\<close> and gives the sentinel, and rewritten with
  \<^verbatim>\<open>/\<close> it is \<^verbatim>\<open>x/a/b\<close>, three elements, and gives \<^verbatim>\<open>1\<close>.
\<close>

theorem separator_rewrite_differs:
  "list_all (\<lambda>k. \<not> occurs ''->'' k \<and> \<not> occurs ''/'' k) [''x'', ''a'', ''b''] \<and>
   py_join ''/'' (py_split ''->'' ''x->a/b'') = ''x/a/b'' \<and>
   jpath (dict [(''x'', dict [(''a'', dict [(''b'', JInt 1)])])]) ''x->a/b''
     default_keytypes nil default_sep = Inr nil \<and>
   jxpath (dict [(''x'', dict [(''a'', dict [(''b'', JInt 1)])])]) ''x/a/b''
     default_keytypes nil = Inr (JInt 1) \<and>
   nil \<noteq> JInt 1"
  by code_simp

text \<open>
  C8, amended: for every tree and every list of elements none of which contains
  \<^verbatim>\<open>->\<close> or \<^verbatim>\<open>/\<close>, the path written with \<^verbatim>\<open>->\<close> between the elements, given to
  \<open>jpath\<close>, and the path written with \<^verbatim>\<open>/\<close> between them, given to \<open>jxpath\<close>, yield
  the same result under the default sentinel, for every key type list. (The keys of the
  tree play no part; \<open>jxpath\<close> evaluates with \<^verbatim>\<open>nil\<close> whatever \<open>null\<close> it is given.)
\<close>

theorem separator_equivalence:
  assumes "list_all (\<lambda>e. \<not> occurs ''->'' e \<and> \<not> occurs ''/'' e) es"
  shows "jpath tree (py_join ''->'' es) keytypes nil default_sep =
         jxpath tree (py_join ''/'' es) keytypes null"
proof (cases "es = [] \<or> es = [[]]")
  case True
  then show ?thesis by (auto simp: jpath_def jxpath_def)
next
  case False
  then have ne: "es \<noteq> []" by simp
  from assms have ar: "list_all (\<lambda>e. \<not> occurs ''->'' e) es"
    and sl: "list_all (\<lambda>e. \<not> occurs ''/'' e) es"
    by (simp_all add: list_all_iff)
  have ja: "py_join ''->'' es \<noteq> []" and js: "py_join ''/'' es \<noteq> []"
    using False by (simp_all add: py_join_empty)
  show ?thesis
    using ja js
    by (simp add: jpath_def jxpath_def default_sep_def
        split_join_arrow [OF ne ar] split_join_slash [OF ne sl])
qed

theorem separator_equivalence_witness:
  "list_all (\<lambda>e. \<not> occurs ''->'' e \<and> \<not> occurs ''/'' e) [''a'', ''b[0]''] \<and>
   py_join ''->'' [''a'', ''b[0]''] = ''a->b[0]'' \<and>
   py_join ''/'' [''a'', ''b[0]''] = ''a/b[0]'' \<and>
   jpath (dict [(''a'', dict [(''b'', JArr [JInt 5])])]) ''a->b[0]'' default_keytypes nil default_sep
     = Inr (JInt 5) \<and>
   jpath (dict [(''a'', dict [(''b'', JArr [JInt 5])])]) (py_join ''->'' [''a'', ''b[0]''])
       default_keytypes nil default_sep =
     jxpath (dict [(''a'', dict [(''b'', JArr [JInt 5])])]) (py_join ''/'' [''a'', ''b[0]''])
       default_keytypes nil"
proof -
  have ok: "list_all (\<lambda>e. \<not> occurs ''->'' e \<and> \<not> occurs ''/'' e) [''a'', ''b[0]'']"
    by simp
  have ja: "py_join ''->'' [''a'', ''b[0]''] = ''a->b[0]''"
    and js: "py_join ''/'' [''a'', ''b[0]''] = ''a/b[0]''"
    by simp_all
  have v: "jpath (dict [(''a'', dict [(''b'', JArr [JInt 5])])]) ''a->b[0]''
             default_keytypes nil default_sep = Inr (JInt 5)"
    by code_simp
  from ok ja js v
    separator_equivalence [OF ok, of "dict [(''a'', dict [(''b'', JArr [JInt 5])])]"
      default_keytypes nil]
  show ?thesis by blast
qed

section \<open>Subscript tokens\<close>

text \<open>
  What \<^verbatim>\<open>int\<close> does with the two shapes of token that \<^verbatim>\<open>subscript_re\<close> lets through:
  digits parse, and a text in quotes does not.
\<close>

lemma digit_not_special:
  "is_digit c \<Longrightarrow> \<not> int_blank c \<and> c \<noteq> CHR ''-'' \<and> c \<noteq> CHR ''+'' \<and> c \<noteq> CHR ''_''"
  by (auto simp: is_digit_def int_blank_def)

lemma quote_not_special:
  "is_quote q \<Longrightarrow> \<not> int_blank q \<and> q \<noteq> CHR ''-'' \<and> q \<noteq> CHR ''+'' \<and> \<not> is_digit q"
  by (auto simp: is_quote_def is_digit_def int_blank_def)

lemma digits_ok_all:
  "ds \<noteq> [] \<Longrightarrow> list_all is_digit ds \<Longrightarrow> digits_ok ds"
  by (induction ds rule: digits_ok.induct) (auto dest: digit_not_special)

lemma trim_unchanged:
  assumes "s \<noteq> []" and "\<not> int_blank (hd s)" and "\<not> int_blank (last s)"
  shows "rev (dropWhile int_blank (rev (dropWhile int_blank s))) = s"
proof -
  from assms(1,2) have "dropWhile int_blank s = s"
    by (cases s) simp_all
  moreover from assms(1,3) have "dropWhile int_blank (rev s) = rev s"
    by (cases "rev s") (simp_all add: last_rev [symmetric] hd_rev)
  ultimately show ?thesis by simp
qed

lemma py_int_digits:
  assumes "ds \<noteq> []" and "list_all is_digit ds"
  shows "py_int ds = Some (int (digits_val ds))"
proof -
  from assms have first: "is_digit (hd ds)" and final: "is_digit (last ds)"
    by (auto simp: list_all_iff)
  have t: "rev (dropWhile int_blank (rev (dropWhile int_blank ds))) = ds"
    using assms(1) first final by (intro trim_unchanged) (auto dest: digit_not_special)
  have sgn: "take (Suc 0) ds \<noteq> ''-''" "take (Suc 0) ds \<noteq> ''+''"
    using assms(1) first by (cases ds; auto dest: digit_not_special)+
  have f: "filter is_digit ds = ds"
    using assms(2) by (simp add: list_all_iff)
  show ?thesis
    using digits_ok_all [OF assms] by (simp add: py_int_def t sgn f)
qed

lemma py_int_quoted:
  assumes "is_quote q"
  shows "py_int (q # x @ [q]) = None"
proof -
  have t: "rev (dropWhile int_blank (rev (dropWhile int_blank (q # x @ [q])))) = q # x @ [q]"
    using assms by (intro trim_unchanged) (auto dest: quote_not_special)
  have bad: "\<not> digits_ok (q # x @ [q])"
    using assms by (cases x) (auto dest: quote_not_special)
  show ?thesis
    using assms bad by (auto simp: py_int_def t dest: quote_not_special)
qed

lemma apex_sub_quoted:
  "is_quote q \<Longrightarrow> apex_sub (q # x @ [q]) = x"
  by (simp add: apex_sub_def strip_leading_quote_def strip_trailing_quote_def)

text \<open>
  Every token that the element loop takes from a match of \<^verbatim>\<open>subscript_re\<close> has one of
  the two shapes: a group is a bracket, a token of that shape, a bracket; a match is a
  run of groups; and cutting the match at its brackets gives the tokens back.
\<close>

lemma digit_group_shape:
  assumes "0 < digit_group s"
  shows "\<exists>ds rest. s = CHR ''['' # ds @ CHR '']'' # rest \<and> ds \<noteq> [] \<and> list_all is_digit ds \<and>
           digit_group s = length ds + 2"
proof (cases s)
  case Nil
  with assms show ?thesis by (simp add: digit_group_def)
next
  case (Cons c r)
  with assms have c: "c = CHR ''[''" and ne: "takeWhile is_digit r \<noteq> []"
    and cl: "take 1 (dropWhile is_digit r) = '']''"
    and n: "digit_group s = length (takeWhile is_digit r) + 2"
    by (auto simp: digit_group_def split: if_splits)
  from cl obtain rest where rest: "dropWhile is_digit r = CHR '']'' # rest"
    by (cases "dropWhile is_digit r") auto
  have "r = takeWhile is_digit r @ dropWhile is_digit r" by simp
  with rest have "r = takeWhile is_digit r @ CHR '']'' # rest" by simp
  moreover have "list_all is_digit (takeWhile is_digit r)"
    by (simp add: list_all_iff) (meson set_takeWhileD)
  ultimately show ?thesis using Cons c ne n by blast
qed

lemma quoted_group_shape:
  assumes "0 < quoted_group q s"
  shows "\<exists>x rest. s = CHR ''['' # q # x @ q # CHR '']'' # rest \<and> list_all key_char x \<and>
           quoted_group q s = length x + 4"
proof -
  from assms obtain c c' r where s: "s = c # c' # r"
    by (cases s rule: digits_ok.cases) (auto simp: quoted_group_def)
  with assms have c: "c = CHR ''[''" and c': "c' = q"
    and cl: "take 2 (dropWhile key_char r) = [q, CHR '']'']"
    and n: "quoted_group q s = length (takeWhile key_char r) + 4"
    by (auto simp: quoted_group_def split: if_splits)
  from cl obtain rest where rest: "dropWhile key_char r = q # CHR '']'' # rest"
    by (cases "dropWhile key_char r" rule: digits_ok.cases) auto
  have "r = takeWhile key_char r @ dropWhile key_char r" by simp
  with rest have "r = takeWhile key_char r @ q # CHR '']'' # rest" by simp
  moreover have "list_all key_char (takeWhile key_char r)"
    by (simp add: list_all_iff) (meson set_takeWhileD)
  ultimately show ?thesis using s c c' n by blast
qed

lemma group_len_shape:
  assumes "0 < group_len s"
  shows "\<exists>tok rest. s = CHR ''['' # tok @ CHR '']'' # rest \<and> token_shape tok \<and>
           group_len s = length tok + 2"
proof -
  consider (dig) "0 < digit_group s"
    | (dq) "digit_group s = 0" "0 < quoted_group dquote s"
    | (sq) "digit_group s = 0" "quoted_group dquote s = 0" "0 < quoted_group squote s"
    using assms by (auto simp: group_len_def split: if_splits)
  then show ?thesis
  proof cases
    case dig
    from digit_group_shape [OF dig] obtain ds rest where
      "s = CHR ''['' # ds @ CHR '']'' # rest" "ds \<noteq> []" "list_all is_digit ds"
      "digit_group s = length ds + 2" by blast
    with dig show ?thesis by (auto simp: group_len_def token_shape_def)
  next
    case dq
    from quoted_group_shape [OF dq(2)] obtain x rest where
      x: "s = CHR ''['' # dquote # x @ dquote # CHR '']'' # rest" "list_all key_char x"
      "quoted_group dquote s = length x + 4" by blast
    have "token_shape (dquote # x @ [dquote])"
      using x(2) by (simp add: token_shape_def is_quote_def butlast_append)
    with x dq show ?thesis
      by (intro exI [of _ "dquote # x @ [dquote]"] exI [of _ rest]) (simp add: group_len_def)
  next
    case sq
    from quoted_group_shape [OF sq(3)] obtain x rest where
      x: "s = CHR ''['' # squote # x @ squote # CHR '']'' # rest" "list_all key_char x"
      "quoted_group squote s = length x + 4" by blast
    have "token_shape (squote # x @ [squote])"
      using x(2) by (simp add: token_shape_def is_quote_def butlast_append)
    with x sq show ?thesis
      by (intro exI [of _ "squote # x @ [squote]"] exI [of _ rest]) (simp add: group_len_def)
  qed
qed

lemma token_shape_cases:
  assumes "token_shape t"
  shows "(t \<noteq> [] \<and> list_all is_digit t) \<or>
         (\<exists>q x. is_quote q \<and> t = q # x @ [q] \<and> list_all key_char x)"
proof (cases "t \<noteq> [] \<and> list_all is_digit t")
  case True
  then show ?thesis by simp
next
  case False
  with assms have len: "2 \<le> length t" and q: "is_quote (hd t)" and l: "last t = hd t"
    and x: "list_all key_char (butlast (tl t))"
    by (auto simp: token_shape_def)
  from len have ne: "t \<noteq> []" and ne': "tl t \<noteq> []"
    by (cases t; auto)+
  have "t = hd t # butlast (tl t) @ [last (tl t)]"
    using ne ne' by simp
  moreover have "last (tl t) = hd t"
    using ne ne' l by (simp add: last_tl)
  ultimately have "t = hd t # butlast (tl t) @ [hd t]" by simp
  with q x show ?thesis by blast
qed

lemma bracket_in_no_class:
  "\<not> is_digit CHR ''[''" "\<not> is_digit CHR '']''" "\<not> key_char CHR ''[''" "\<not> key_char CHR '']''"
  "\<not> is_quote CHR ''[''" "\<not> is_quote CHR '']''"
  by (simp_all add: is_digit_def key_char_def is_word_def is_space_def is_quote_def)

lemma token_shape_no_bracket:
  assumes "token_shape t"
  shows "t \<noteq> [] \<and> CHR ''['' \<notin> set t \<and> CHR '']'' \<notin> set t"
  using token_shape_cases [OF assms] bracket_in_no_class
  by (auto simp: list_all_iff)

lemma brackets_from_token:
  "CHR ''['' \<notin> set t \<Longrightarrow> CHR '']'' \<notin> set t \<Longrightarrow>
     brackets_from cur (t @ CHR '']'' # rest) = (cur @ t) # brackets_from [] rest"
  by (induction t arbitrary: cur) auto

lemma elem_subscripts_group:
  assumes "token_shape tok"
  shows "elem_subscripts (CHR ''['' # tok @ CHR '']'' # rest) = tok # elem_subscripts rest"
  using token_shape_no_bracket [OF assms]
  by (simp add: elem_subscripts_def brackets_split_def brackets_from_token)

lemma run_tokens_shape:
  "list_all token_shape (elem_subscripts (take (run_len s) s))"
proof (induction s rule: run_len.induct)
  case 1
  show ?case by (simp add: elem_subscripts_def brackets_split_def)
next
  case (2 c cs)
  show ?case
  proof (cases "group_len (c # cs) = 0")
    case True
    then show ?thesis by (simp add: elem_subscripts_def brackets_split_def)
  next
    case False
    then have pos: "0 < group_len (c # cs)" by simp
    from group_len_shape [OF pos] obtain tok rest where
      s: "c # cs = CHR ''['' # tok @ CHR '']'' # rest" and sh: "token_shape tok"
      and n: "group_len (c # cs) = length tok + 2" by blast
    from s have cs: "cs = tok @ CHR '']'' # rest" by simp
    have g: "group_len (c # cs) - 1 = Suc (length tok)"
      using n by simp
    have d: "drop (group_len (c # cs) - 1) cs = rest"
      unfolding g by (simp add: cs)
    have ih: "list_all token_shape (elem_subscripts (take (run_len rest) rest))"
      using "2.IH" [OF False] d by simp
    have r: "run_len (c # cs) = length tok + 2 + run_len rest"
      using False d n by simp
    have "take (run_len (c # cs)) (c # cs) =
            take (length tok + 2 + run_len rest) (c # cs)"
      by (simp only: r)
    also have "\<dots> = take (length tok + 2 + run_len rest) (CHR ''['' # tok @ CHR '']'' # rest)"
      by (simp only: s)
    also have "\<dots> = CHR ''['' # tok @ CHR '']'' # take (run_len rest) rest"
      by simp
    finally have "take (run_len (c # cs)) (c # cs) =
            CHR ''['' # tok @ CHR '']'' # take (run_len rest) rest" .
    then show ?thesis
      using sh ih by (simp add: elem_subscripts_group del: run_len.simps)
  qed
qed

lemma search_tokens_shape:
  "subscript_search elem = Some grp \<Longrightarrow> list_all token_shape (elem_subscripts grp)"
proof (induction elem)
  case Nil
  then show ?case by simp
next
  case (Cons c cs)
  show ?case
  proof (cases "0 < run_len (c # cs)")
    case True
    with Cons.prems have "grp = take (run_len (c # cs)) (c # cs)"
      by (simp del: run_len.simps)
    then show ?thesis using run_tokens_shape [of "c # cs"] by simp
  next
    case False
    with Cons show ?thesis by (simp del: run_len.simps)
  qed
qed

lemma token_shape_key:
  assumes "token_shape t"
  shows "subscript_key t =
           (if list_all is_digit t then KInt (int (digits_val t)) else KStr (butlast (tl t)))"
proof (cases "t \<noteq> [] \<and> list_all is_digit t")
  case True
  then show ?thesis by (simp add: subscript_key_def py_int_digits)
next
  case False
  with token_shape_cases [OF assms] obtain q x where
    q: "is_quote q" and t: "t = q # x @ [q]" by blast
  from q have "\<not> list_all is_digit t"
    unfolding t by (auto dest: quote_not_special)
  then show ?thesis
    using q by (simp add: t subscript_key_def py_int_quoted apex_sub_quoted butlast_append)
qed

lemma tokens_typed:
  assumes "subscript_search elem = Some grp"
  shows "list_all token_shape (elem_subscripts grp) \<and>
         list_all (\<lambda>t. subscript_key t =
                  (if list_all is_digit t then KInt (int (digits_val t))
                   else KStr (butlast (tl t)))) (elem_subscripts grp)"
proof -
  have sh: "list_all token_shape (elem_subscripts grp)"
    using assms by (rule search_tokens_shape)
  have "\<forall>t \<in> set (elem_subscripts grp). subscript_key t =
                  (if list_all is_digit t then KInt (int (digits_val t))
                   else KStr (butlast (tl t)))"
  proof
    fix t
    assume "t \<in> set (elem_subscripts grp)"
    with sh have "token_shape t" by (simp add: list_all_iff)
    then show "subscript_key t =
                  (if list_all is_digit t then KInt (int (digits_val t))
                   else KStr (butlast (tl t)))"
      by (rule token_shape_key)
  qed
  then have "list_all (\<lambda>t. subscript_key t =
                  (if list_all is_digit t then KInt (int (digits_val t))
                   else KStr (butlast (tl t)))) (elem_subscripts grp)"
    by (simp only: list_all_iff)
  with sh show ?thesis by (rule conjI)
qed

text \<open>The elements \<^verbatim>\<open>[1]\<close>, \<^verbatim>\<open>["1"]\<close> and \<^verbatim>\<open>['1']\<close>, taken apart.\<close>

lemma split_index: "py_split ''->'' ''[1]'' = [''[1]'']"
  by code_simp

lemma search_index: "subscript_search ''[1]'' = Some ''[1]''"
  by code_simp

lemma sub_index: "subscript_sub ''[1]'' = []"
  by code_simp

lemma scs_index: "elem_subscripts ''[1]'' = [''1'']"
  by code_simp

lemma key_index: "subscript_key ''1'' = KInt 1"
  by code_simp

lemma split_quoted:
  "py_split ''->'' [CHR ''['', dquote, CHR ''1'', dquote, CHR '']'']
     = [[CHR ''['', dquote, CHR ''1'', dquote, CHR '']'']]"
  "py_split ''->'' [CHR ''['', squote, CHR ''1'', squote, CHR '']'']
     = [[CHR ''['', squote, CHR ''1'', squote, CHR '']'']]"
  by code_simp+

lemma search_quoted:
  "subscript_search [CHR ''['', dquote, CHR ''1'', dquote, CHR '']'']
     = Some [CHR ''['', dquote, CHR ''1'', dquote, CHR '']'']"
  "subscript_search [CHR ''['', squote, CHR ''1'', squote, CHR '']'']
     = Some [CHR ''['', squote, CHR ''1'', squote, CHR '']'']"
  by code_simp+

lemma sub_quoted:
  "subscript_sub [CHR ''['', dquote, CHR ''1'', dquote, CHR '']''] = []"
  "subscript_sub [CHR ''['', squote, CHR ''1'', squote, CHR '']''] = []"
  by code_simp+

lemma scs_quoted:
  "elem_subscripts [CHR ''['', dquote, CHR ''1'', dquote, CHR '']'']
     = [[dquote, CHR ''1'', dquote]]"
  "elem_subscripts [CHR ''['', squote, CHR ''1'', squote, CHR '']'']
     = [[squote, CHR ''1'', squote]]"
  by code_simp+

lemma key_quoted:
  "subscript_key [dquote, CHR ''1'', dquote] = KStr ''1''"
  "subscript_key [squote, CHR ''1'', squote] = KStr ''1''"
  by code_simp+

lemma array_index:
  "jpath (JArr [JInt 10, JInt 20, JInt 30]) ''[1]'' keytypes null default_sep = Inr (JInt 20)"
  by (simp add: jpath_def default_sep_def split_index elem_step_def search_index sub_index
      scs_index key_index resolve_root_def seq_index_def
      del: subscript_search.simps subscript_sub.simps)

lemma array_quoted:
  "jpath (JArr [JInt 10, JInt 20, JInt 30]) [CHR ''['', dquote, CHR ''1'', dquote, CHR '']'']
     keytypes null default_sep = Inr null"
  "jpath (JArr [JInt 10, JInt 20, JInt 30]) [CHR ''['', squote, CHR ''1'', squote, CHR '']'']
     keytypes null default_sep = Inr null"
  by (simp_all add: jpath_def default_sep_def split_quoted elem_step_def search_quoted
      sub_quoted scs_quoted key_quoted resolve_root_def
      del: subscript_search.simps subscript_sub.simps)

text \<open>
  C5. A subscript token is typed by \<^verbatim>\<open>int\<close> first: a token of digits is the integer
  it spells, and a token in single or double quotes is the string between the quotes,
  also when that string is all digits. The tokens that an element's match is cut into
  are all of one of these two shapes, and are typed so. So on the array \<^verbatim>\<open>[10, 20, 30]\<close> the path
  \<^verbatim>\<open>[1]\<close> yields \<^verbatim>\<open>20\<close> and the paths \<^verbatim>\<open>["1"]\<close> and \<^verbatim>\<open>['1']\<close> yield the sentinel,
  whatever the sentinel and the key types are.
\<close>

theorem subscript_typing:
  "(ds \<noteq> [] \<and> list_all is_digit ds \<longrightarrow> subscript_key ds = KInt (int (digits_val ds))) \<and>
   (is_quote q \<longrightarrow> subscript_key (q # x @ [q]) = KStr x) \<and>
   (subscript_search elem = Some grp \<longrightarrow>
      list_all token_shape (elem_subscripts grp) \<and>
      list_all (\<lambda>t. subscript_key t =
                  (if list_all is_digit t then KInt (int (digits_val t))
                   else KStr (butlast (tl t)))) (elem_subscripts grp)) \<and>
   jpath (JArr [JInt 10, JInt 20, JInt 30]) ''[1]'' keytypes null default_sep = Inr (JInt 20) \<and>
   jpath (JArr [JInt 10, JInt 20, JInt 30]) [CHR ''['', dquote, CHR ''1'', dquote, CHR '']'']
     keytypes null default_sep = Inr null \<and>
   jpath (JArr [JInt 10, JInt 20, JInt 30]) [CHR ''['', squote, CHR ''1'', squote, CHR '']'']
     keytypes null default_sep = Inr null"
proof (intro conjI impI)
  assume "ds \<noteq> [] \<and> list_all is_digit ds"
  then show "subscript_key ds = KInt (int (digits_val ds))"
    by (simp add: subscript_key_def py_int_digits)
next
  assume "is_quote q"
  then show "subscript_key (q # x @ [q]) = KStr x"
    by (simp add: subscript_key_def py_int_quoted apex_sub_quoted)
next
  assume "subscript_search elem = Some grp"
  then show "list_all token_shape (elem_subscripts grp)"
    by (rule search_tokens_shape)
next
  assume "subscript_search elem = Some grp"
  then show "list_all (\<lambda>t. subscript_key t =
                  (if list_all is_digit t then KInt (int (digits_val t))
                   else KStr (butlast (tl t)))) (elem_subscripts grp)"
    using tokens_typed by blast
next
  show "jpath (JArr [JInt 10, JInt 20, JInt 30]) ''[1]'' keytypes null default_sep
          = Inr (JInt 20)"
    by (rule array_index)
next
  show "jpath (JArr [JInt 10, JInt 20, JInt 30]) [CHR ''['', dquote, CHR ''1'', dquote, CHR '']'']
     keytypes null default_sep = Inr null"
    by (rule array_quoted)
next
  show "jpath (JArr [JInt 10, JInt 20, JInt 30]) [CHR ''['', squote, CHR ''1'', squote, CHR '']'']
     keytypes null default_sep = Inr null"
    by (rule array_quoted)
qed

theorem subscript_typing_witness:
  "''0'' \<noteq> [] \<and> list_all is_digit ''0'' \<and> subscript_key ''0'' = KInt 0 \<and>
   is_quote dquote \<and> subscript_key [dquote, CHR ''0'', dquote] = KStr ''0'' \<and>
   is_quote squote \<and> subscript_key [squote, CHR ''0'', squote] = KStr ''0'' \<and>
   subscript_search ''[1]'' = Some ''[1]'' \<and>
   list_all token_shape (elem_subscripts ''[1]'') \<and>
   jpath (JArr [JInt 10, JInt 20, JInt 30]) ''[1]'' default_keytypes nil default_sep
     = Inr (JInt 20) \<and>
   jpath (JArr [JInt 10, JInt 20, JInt 30]) [CHR ''['', dquote, CHR ''1'', dquote, CHR '']'']
     default_keytypes nil default_sep = Inr nil"
proof -
  note inst = subscript_typing [where ds = "''0''" and q = dquote and x = "''0''"
      and elem = "''[1]''" and grp = "''[1]''" and keytypes = default_keytypes and null = nil]
  note inst' = subscript_typing [where ds = "''0''" and q = squote and x = "''0''"
      and elem = "''[1]''" and grp = "''[1]''" and keytypes = default_keytypes and null = nil]
  have dig: "''0'' \<noteq> [] \<and> list_all is_digit ''0''"
    by (simp add: is_digit_def)
  have val: "int (digits_val ''0'') = 0"
    by (simp add: digits_val_def digit_val_def)
  have qd: "is_quote dquote" and qs: "is_quote squote"
    by (simp_all add: is_quote_def)
  have found: "subscript_search ''[1]'' = Some ''[1]''"
    by (rule search_index)
  from inst [THEN conjunct1, THEN mp, OF dig]
  have k0: "subscript_key ''0'' = KInt 0"
    unfolding val .
  from inst [THEN conjunct2, THEN conjunct1, THEN mp, OF qd]
  have kd: "subscript_key [dquote, CHR ''0'', dquote] = KStr ''0''"
    by simp
  from inst' [THEN conjunct2, THEN conjunct1, THEN mp, OF qs]
  have ks: "subscript_key [squote, CHR ''0'', squote] = KStr ''0''"
    by simp
  from inst [THEN conjunct2, THEN conjunct2, THEN conjunct1, THEN mp, OF found]
  have sh: "list_all token_shape (elem_subscripts ''[1]'')"
    by (rule conjunct1)
  from inst [THEN conjunct2, THEN conjunct2, THEN conjunct2, THEN conjunct1]
  have a1: "jpath (JArr [JInt 10, JInt 20, JInt 30]) ''[1]'' default_keytypes nil default_sep
     = Inr (JInt 20)" .
  from inst [THEN conjunct2, THEN conjunct2, THEN conjunct2, THEN conjunct2, THEN conjunct1]
  have a2: "jpath (JArr [JInt 10, JInt 20, JInt 30])
     [CHR ''['', dquote, CHR ''1'', dquote, CHR '']''] default_keytypes nil default_sep
     = Inr nil" .
  from dig k0 qd kd qs ks found sh a1 a2
  show ?thesis by (intro conjI) (erule conjunct1 conjunct2 | assumption)+
qed

section \<open>Bracket form and arrow form\<close>

text \<open>
  C7 does not hold of the code, although the module says of its own tests that
  \<^verbatim>\<open>->key\<close> and \<^verbatim>\<open>['key']\<close> are equivalent (line 297). On \<^verbatim>\<open>{"a": [1]}\<close> the bracket
  form \<^verbatim>\<open>a["key"]\<close> gives the sentinel, the list refusing the string key with a
  \<^verbatim>\<open>TypeError\<close> that reaches the outer handler; the arrow form \<^verbatim>\<open>a->key\<close> gives the
  list \<^verbatim>\<open>[1]\<close>, the same \<^verbatim>\<open>TypeError\<close> being passed over inside the key type loop.
\<close>

theorem bracket_and_arrow_differ:
  "jpath (dict [(''a'', JArr [JInt 1])]) [CHR ''a'', CHR ''['', dquote, CHR ''k'', CHR ''e'',
       CHR ''y'', dquote, CHR '']''] default_keytypes nil default_sep = Inr nil \<and>
   jpath (dict [(''a'', JArr [JInt 1])]) ''a->key'' default_keytypes nil default_sep
     = Inr (JArr [JInt 1]) \<and>
   JArr [JInt 1] \<noteq> nil"
  by code_simp

section \<open>The stored null and the sentinel\<close>

text \<open>
  Once the cursor is \<^verbatim>\<open>None\<close> and the sentinel is not, no key type changes it: both
  branches subscript \<^verbatim>\<open>None\<close>, which raises \<^verbatim>\<open>TypeError\<close>, or fail in \<^verbatim>\<open>int\<close>, and both
  are passed over.
\<close>

lemma try_keytype_none_stays:
  "null \<noteq> JNull \<Longrightarrow> try_keytype source null elem JNull k = JNull"
  by (cases k) (auto simp: try_keytype_def conv_def split: option.splits)

lemma keytypes_none_stays:
  "null \<noteq> JNull \<Longrightarrow> foldl (try_keytype source null elem) JNull ks = JNull"
  by (induction ks) (simp_all add: try_keytype_none_stays)

lemma name_found_none:
  assumes "null \<noteq> JNull" and "name \<noteq> []" and "subscript_search name = None"
    and "is_container c"
    and "py_getitem (if c \<noteq> null then c else source) (KStr name) = Inr JNull"
  shows "elem_step source (KTStr # rest) null c name = Inr JNull"
proof -
  have "try_keytype source null name c KTStr = JNull"
    using assms(5) by (simp add: try_keytype_def conv_def split: if_splits)
  then have "foldl (try_keytype source null name) c (KTStr # rest) = JNull"
    using assms(1) by (simp add: keytypes_none_stays)
  then show ?thesis
    using assms(2,3,4) by (simp add: elem_step_def)
qed

lemma name_missing:
  assumes "name \<noteq> []" and "subscript_search name = None"
    and "is_container c" and "py_int name = None"
    and "py_getitem (if c \<noteq> null then c else source) (KStr name) = Inl KeyError"
  shows "elem_step source [KTStr, KTInt] null c name = Inr null"
proof -
  have "try_keytype source null name c KTStr = null"
    using assms(5) by (simp add: try_keytype_def conv_def split: if_splits)
  moreover have "try_keytype source null name null KTInt = null"
    using assms(4) by (simp add: try_keytype_def conv_def)
  ultimately have "foldl (try_keytype source null name) c [KTStr, KTInt] = null"
    by simp
  then show ?thesis
    using assms(1,2,3) by (simp add: elem_step_def)
qed

lemma jpath_of_elements:
  assumes "list_all (\<lambda>e. \<not> occurs ''->'' e) (es @ [name])" and "name \<noteq> []"
  shows "jpath source (py_join ''->'' (es @ [name])) keytypes null default_sep =
           (case elems_loop source keytypes null null (es @ [name]) of
              Inr obj \<Rightarrow> Inr obj
            | Inl (e, obj) \<Rightarrow>
                if e = IndexError \<or> e = KeyError \<or> e = TypeError then Inr null else Inr obj)"
proof -
  have ne: "es @ [name] \<noteq> []" by simp
  have "py_join ''->'' (es @ [name]) \<noteq> []"
    using assms(2) by (simp add: py_join_empty)
  then show ?thesis
    by (simp add: jpath_def default_sep_def split_join_arrow [OF ne assms(1)])
qed

text \<open>
  C9. Let the sentinel be any value but \<^verbatim>\<open>None\<close>, and let the elements before the last
  bring the cursor to a list or dict. If the last element is a name under which that
  value stores \<^verbatim>\<open>None\<close>, \<open>jpath\<close> returns \<^verbatim>\<open>None\<close>, whatever key types follow \<^verbatim>\<open>str\<close>;
  if the name is a missing key (and no integer), \<open>jpath\<close> returns the sentinel under the
  default key types; and the two results differ. The witness is the path
  \<^verbatim>\<open>test->inner\<close> on the tree \<^verbatim>\<open>d\<close> of the specification, against \<^verbatim>\<open>test->nokey\<close>.
\<close>

theorem stored_null_is_returned:
  assumes "null \<noteq> JNull"
    and "list_all (\<lambda>e. \<not> occurs ''->'' e) (es @ [name])"
    and "name \<noteq> []" and "subscript_search name = None"
    and "elems_loop source (KTStr # rest) null null es = Inr c"
    and "is_container c"
  shows "(py_getitem (if c \<noteq> null then c else source) (KStr name) = Inr JNull \<longrightarrow>
            jpath source (py_join ''->'' (es @ [name])) (KTStr # rest) null default_sep
              = Inr JNull) \<and>
         (rest = [KTInt] \<and> py_int name = None \<and>
          py_getitem (if c \<noteq> null then c else source) (KStr name) = Inl KeyError \<longrightarrow>
            jpath source (py_join ''->'' (es @ [name])) (KTStr # rest) null default_sep
              = Inr null) \<and>
         (Inr JNull :: exn + jv) \<noteq> Inr null"
proof (intro conjI impI)
  assume "py_getitem (if c \<noteq> null then c else source) (KStr name) = Inr JNull"
  then have "elem_step source (KTStr # rest) null c name = Inr JNull"
    using assms by (intro name_found_none)
  then have "elems_loop source (KTStr # rest) null null (es @ [name]) = Inr JNull"
    using assms(5) by (simp add: elems_loop_append)
  then show "jpath source (py_join ''->'' (es @ [name])) (KTStr # rest) null default_sep
              = Inr JNull"
    by (simp add: jpath_of_elements [OF assms(2,3)])
next
  assume h: "rest = [KTInt] \<and> py_int name = None \<and>
          py_getitem (if c \<noteq> null then c else source) (KStr name) = Inl KeyError"
  then have "elem_step source (KTStr # rest) null c name = Inr null"
    using assms name_missing [of name c null source] by simp
  then have "elems_loop source (KTStr # rest) null null (es @ [name]) = Inr null"
    using assms(5) by (simp add: elems_loop_append)
  then show "jpath source (py_join ''->'' (es @ [name])) (KTStr # rest) null default_sep
              = Inr null"
    by (simp add: jpath_of_elements [OF assms(2,3)])
next
  show "(Inr JNull :: exn + jv) \<noteq> Inr null"
    using assms(1) by simp
qed

theorem stored_null_is_returned_witness:
  "nil \<noteq> JNull \<and>
   list_all (\<lambda>e. \<not> occurs ''->'' e) ([''test''] @ [''inner'']) \<and>
   ''inner'' \<noteq> [] \<and> subscript_search ''inner'' = None \<and>
   elems_loop d_spec (KTStr # [KTInt]) nil nil [''test''] = Inr d_spec_test \<and>
   is_container d_spec_test \<and>
   py_getitem (if d_spec_test \<noteq> nil then d_spec_test else d_spec) (KStr ''inner'') = Inr JNull \<and>
   py_join ''->'' ([''test''] @ [''inner'']) = ''test->inner'' \<and>
   default_keytypes = KTStr # [KTInt] \<and>
   jpath d_spec ''test->inner'' default_keytypes nil default_sep = Inr JNull \<and>
   py_int ''nokey'' = None \<and>
   py_getitem (if d_spec_test \<noteq> nil then d_spec_test else d_spec) (KStr ''nokey'')
     = Inl KeyError \<and>
   jpath d_spec ''test->nokey'' default_keytypes nil default_sep = Inr nil \<and>
   jpath d ''test->inner'' default_keytypes nil default_sep = Inr JNull"
proof -
  have sent: "nil \<noteq> JNull"
    by (simp add: nil_def)
  have free: "list_all (\<lambda>e. \<not> occurs ''->'' e) ([''test''] @ [''inner''])"
    and free': "list_all (\<lambda>e. \<not> occurs ''->'' e) ([''test''] @ [''nokey''])"
    by simp_all
  have ne: "''inner'' \<noteq> []" and ne': "''nokey'' \<noteq> []"
    by simp_all
  have plain: "subscript_search ''inner'' = None" and plain': "subscript_search ''nokey'' = None"
    by code_simp+
  have pre: "elems_loop d_spec (KTStr # [KTInt]) nil nil [''test''] = Inr d_spec_test"
    by code_simp
  have cont: "is_container d_spec_test"
    by code_simp
  have found: "py_getitem (if d_spec_test \<noteq> nil then d_spec_test else d_spec) (KStr ''inner'')
     = Inr JNull"
    by code_simp
  have noint: "py_int ''nokey'' = None"
    by code_simp
  have missing: "py_getitem (if d_spec_test \<noteq> nil then d_spec_test else d_spec)
     (KStr ''nokey'') = Inl KeyError"
    by code_simp
  have j: "py_join ''->'' ([''test''] @ [''inner'']) = ''test->inner''"
    and j': "py_join ''->'' ([''test''] @ [''nokey'']) = ''test->nokey''"
    by simp_all
  have dk: "default_keytypes = KTStr # [KTInt]"
    by (simp add: default_keytypes_def)
  have rest: "[KTInt] = [KTInt]" ..
  from stored_null_is_returned [OF sent free ne plain pre cont, THEN conjunct1, THEN mp, OF found]
  have r: "jpath d_spec ''test->inner'' default_keytypes nil default_sep = Inr JNull"
    unfolding j dk .
  from stored_null_is_returned [OF sent free' ne' plain' pre cont, THEN conjunct2, THEN conjunct1, THEN mp,
      OF conjI [OF rest conjI [OF noint missing]]]
  have r': "jpath d_spec ''test->nokey'' default_keytypes nil default_sep = Inr nil"
    unfolding j' dk .
  have m: "jpath d ''test->inner'' default_keytypes nil default_sep = Inr JNull"
    by code_simp
  from sent free ne plain pre cont found j dk r noint missing r' m
  show ?thesis by (intro conjI)
qed





end
